theory Spec2Isabelle
  imports Main
begin

section \<open>The relation registry of auditlog (relations.py)\<close>

subsection \<open>What the registry reads from the framework\<close>

text \<open>
  \<^verbatim>\<open>_validate_relations\<close> reads two things of a model class: the field that
  \<^verbatim>\<open>_meta.get_field(part)\<close> returns, and the class's \<^verbatim>\<open>str\<close> for the error message.
  A field is either a \<^verbatim>\<open>RelatedField\<close>, whose \<^verbatim>\<open>related.parent_model\<close> is the model
  it points to, or any other field. \<^verbatim>\<open>get_field\<close> raises \<^verbatim>\<open>FieldDoesNotExist\<close> for a
  name the model does not have: that is \<open>None\<close> here. Model classes are values of a type
  \<open>'m\<close>; the framework's metadata is a parameter of every operation.
\<close>

datatype 'm field = RelatedField 'm | OtherField

record 'm meta =
  get_field :: "'m \<Rightarrow> string \<Rightarrow> 'm field option"
  str_of :: "'m \<Rightarrow> string"

datatype error = ValueError string | FieldDoesNotExist | KeyError

subsection \<open>\<^verbatim>\<open>str.split(sep)\<close>\<close>

text \<open>
  Python's \<^verbatim>\<open>s.split(sep)\<close> for a non-empty separator: the occurrences of \<open>sep\<close> are
  found from the left, without overlap, and the pieces between them are returned; the
  result always has one piece more than there are separators found.
\<close>

function split :: "string \<Rightarrow> string \<Rightarrow> string list" where
  "split sep [] = [[]]"
| "split sep (c # cs) =
     (if sep \<noteq> [] \<and> take (length sep) (c # cs) = sep
      then [] # split sep (drop (length sep) (c # cs))
      else (case split sep cs of
              [] \<Rightarrow> [[c]]
            | piece # pieces \<Rightarrow> (c # piece) # pieces))"
  by pat_completeness auto
termination
  by (relation "measure (\<lambda>(sep, s). length s)") auto

text \<open>\<^verbatim>\<open>sep.join(pieces)\<close>, and \<^verbatim>\<open>sep in s\<close>: the separator occurs somewhere in the string.\<close>

fun join :: "string \<Rightarrow> string list \<Rightarrow> string" where
  "join sep [] = []"
| "join sep [p] = p"
| "join sep (p # q # ps) = p @ sep @ join sep (q # ps)"

fun occurs :: "string \<Rightarrow> string \<Rightarrow> bool" where
  "occurs sep [] = (sep = [])"
| "occurs sep (c # cs) = (take (length sep) (c # cs) = sep \<or> occurs sep cs)"

subsection \<open>Validation and the registry operations\<close>

text \<open>
  The message of the \<^verbatim>\<open>ValueError\<close>:
  \<^verbatim>\<open>"Error on '%s': '%s' has no relation '%s'" % (model, parent, part)\<close>.
\<close>

definition no_relation_message :: "string \<Rightarrow> string \<Rightarrow> string \<Rightarrow> string" where
  "no_relation_message model_s parent_s part =
     ''Error on '' @ [CHR 0x27] @ model_s @ [CHR 0x27] @ '': '' @ [CHR 0x27] @ parent_s @ [CHR 0x27]
       @ '' has no relation '' @ [CHR 0x27] @ part @ [CHR 0x27]"

text \<open>The inner loop: \<^verbatim>\<open>for part in relation.split('__')\<close>, with \<open>parent\<close> advancing.\<close>

fun validate_parts :: "'m meta \<Rightarrow> 'm \<Rightarrow> 'm \<Rightarrow> string list \<Rightarrow> error + unit" where
  "validate_parts M model parent [] = Inr ()"
| "validate_parts M model parent (part # parts) =
     (case get_field M parent part of
        None \<Rightarrow> Inl FieldDoesNotExist
      | Some (RelatedField target) \<Rightarrow> validate_parts M model target parts
      | Some OtherField \<Rightarrow>
          Inl (ValueError (no_relation_message (str_of M model) (str_of M parent) part)))"

text \<open>The outer loop: \<^verbatim>\<open>for relation in relations\<close>, in the order of iteration.\<close>

fun validate_relations :: "'m meta \<Rightarrow> 'm \<Rightarrow> string list \<Rightarrow> error + unit" where
  "validate_relations M model [] = Inr ()"
| "validate_relations M model (relation # relations) =
     (case validate_parts M model model (split ''__'' relation) of
        Inl e \<Rightarrow> Inl e
      | Inr _ \<Rightarrow> validate_relations M model relations)"

text \<open>
  The registry is a \<^verbatim>\<open>dict\<close> from model classes to the relations registered for them.
  \<^verbatim>\<open>relations\<close> is the collection of strings the caller passes, as the list of its
  elements in the order of iteration; the registry stores it as it is. Each operation
  returns what the call returns or raises, and the registry after it: validation comes
  first, so a call that raises has not written.
\<close>

type_synonym 'm registry = "'m \<rightharpoonup> string list"

definition register ::
  "'m meta \<Rightarrow> 'm registry \<Rightarrow> 'm \<Rightarrow> string list \<Rightarrow> (error + unit) \<times> 'm registry" where
  "register M self model relations =
     (case validate_relations M model relations of
        Inl e \<Rightarrow> (Inl e, self)
      | Inr _ \<Rightarrow> (Inr (), self(model \<mapsto> relations)))"

text \<open>
  \<^verbatim>\<open>dict.pop(key[, default])\<close>: removes the key and returns its value; for a missing key it
  returns the default when one is given and raises \<^verbatim>\<open>KeyError\<close> otherwise.
\<close>

definition pop ::
  "('k \<rightharpoonup> 'v) \<Rightarrow> 'k \<Rightarrow> 'd option \<Rightarrow> (error + ('v + 'd)) \<times> ('k \<rightharpoonup> 'v)" where
  "pop self key dflt =
     (case self key of
        Some v \<Rightarrow> (Inr (Inl v), self(key := None))
      | None \<Rightarrow> (case dflt of
                  Some d \<Rightarrow> (Inr (Inr d), self)
                | None \<Rightarrow> (Inl KeyError, self)))"

text \<open>\<^verbatim>\<open>self.pop(model, None)\<close>; the popped value is dropped.\<close>

definition unregister :: "'m registry \<Rightarrow> 'm \<Rightarrow> (error + unit) \<times> 'm registry" where
  "unregister self model =
     (case pop self model (Some ()) of
        (Inl e, self') \<Rightarrow> (Inl e, self')
      | (Inr _, self') \<Rightarrow> (Inr (), self'))"

subsection \<open>Reading the registry\<close>






subsection \<open>What validation is meant to decide\<close>

text \<open>
  Every component names a relational field, one hop at a time, each hop moving on to the
  model the field points to.
\<close>

fun relational_hops :: "'m meta \<Rightarrow> 'm \<Rightarrow> string list \<Rightarrow> bool" where
  "relational_hops M t [] = True"
| "relational_hops M t (c # cs) =
     (case get_field M t c of
        Some (RelatedField t') \<Rightarrow> relational_hops M t' cs
      | _ \<Rightarrow> False)"

text \<open>The model reached by following the components, when each of them is a relation.\<close>

fun follow :: "'m meta \<Rightarrow> 'm \<Rightarrow> string list \<Rightarrow> 'm option" where
  "follow M t [] = Some t"
| "follow M t (c # cs) =
     (case get_field M t c of
        Some (RelatedField t') \<Rightarrow> follow M t' cs
      | _ \<Rightarrow> None)"

text \<open>
  Some component of the path, resolved hop by hop from \<open>t\<close>, names a field that is not
  a relation.
\<close>

fun meets_other_field :: "'m meta \<Rightarrow> 'm \<Rightarrow> string list \<Rightarrow> bool" where
  "meets_other_field M t [] = False"
| "meets_other_field M t (c # cs) =
     (case get_field M t c of
        None \<Rightarrow> False
      | Some OtherField \<Rightarrow> True
      | Some (RelatedField t') \<Rightarrow> meets_other_field M t' cs)"

fun is_ValueError :: "error + 'a \<Rightarrow> bool" where
  "is_ValueError (Inl (ValueError msg)) = True"
| "is_ValueError _ = False"


subsection \<open>The models of the test application\<close>

text \<open>
  The two models the tests of the relation log use: \<^verbatim>\<open>SimpleModel\<close> with the fields
  \<^verbatim>\<open>text\<close> and \<^verbatim>\<open>boolean\<close>, and \<^verbatim>\<open>SimpleChildModel\<close> with \<^verbatim>\<open>text\<close> and a foreign key
  \<^verbatim>\<open>parent\<close> to \<^verbatim>\<open>SimpleModel\<close>.
\<close>

datatype testapp = SimpleModel | SimpleChildModel

fun testapp_get_field :: "testapp \<Rightarrow> string \<Rightarrow> testapp field option" where
  "testapp_get_field SimpleModel name =
     (if name = ''id'' \<or> name = ''text'' \<or> name = ''boolean'' then Some OtherField else None)"
| "testapp_get_field SimpleChildModel name =
     (if name = ''parent'' then Some (RelatedField SimpleModel)
      else if name = ''id'' \<or> name = ''text'' then Some OtherField else None)"

fun testapp_str :: "testapp \<Rightarrow> string" where
  "testapp_str SimpleModel = ''<class '' @ [CHR 0x27] @ ''testapp.models.SimpleModel'' @ [CHR 0x27] @ ''>''"
| "testapp_str SimpleChildModel = ''<class '' @ [CHR 0x27] @ ''testapp.models.SimpleChildModel'' @ [CHR 0x27] @ ''>''"

definition testapp_meta :: "testapp meta" where
  "testapp_meta = \<lparr>get_field = testapp_get_field, str_of = testapp_str\<rparr>"

text \<open>
  A model with a foreign key to itself, for paths of several hops: a \<^verbatim>\<open>Category\<close> with
  the fields \<^verbatim>\<open>name\<close> and \<^verbatim>\<open>parent\<close>, the latter a relation to \<^verbatim>\<open>Category\<close>.
\<close>

datatype tree = Category

fun tree_get_field :: "tree \<Rightarrow> string \<Rightarrow> tree field option" where
  "tree_get_field Category name =
     (if name = ''parent'' then Some (RelatedField Category)
      else if name = ''id'' \<or> name = ''name'' then Some OtherField else None)"

definition tree_meta :: "tree meta" where
  "tree_meta = \<lparr>get_field = tree_get_field, str_of = (\<lambda>_. ''Category'')\<rparr>"

section \<open>The change log around the registry\<close>

text \<open>
  The tests exercise receivers, a diff and a middleware whose code is not among the
  sources; each definition of this section follows the specification's words and says so.
\<close>

subsection \<open>Records of the log\<close>

text \<open>
  Modelled from the spec: the data model of section 3, whose declarations (the models of
  the log) are not among the sources. A LogEntry has an entity type, an entity id, the
  entity's representation at the time of the event, an action, the changes from field name
  to (before, after), an actor or none, and a timestamp; a RelatedLogEntry refers to its
  LogEntry and names the related entity and the relation path. An entity is its type, id,
  representation and snapshot of field values; the log holds both kinds of records,
  append-only.
\<close>

datatype action = CREATE | UPDATE | DELETE

record ('t, 'i, 'a) log_entry =
  entity_type :: 't
  entity_id :: 'i
  entity_repr :: string
  action :: action
  changes :: "(string \<times> string \<times> string) list"
  actor :: "'a option"
  timestamp :: nat

record ('t, 'i, 'a) related_log_entry =
  log_entry :: "('t, 'i, 'a) log_entry"
  related_entity_type :: 't
  related_entity_id :: 'i
  relation :: string

record ('t, 'i, 'v) entity =
  etype :: 't
  eid :: 'i
  erepr :: string
  evalues :: "(string \<times> 'v) list"

record ('t, 'i, 'a) audit_log =
  entries :: "('t, 'i, 'a) log_entry list"
  related_entries :: "('t, 'i, 'a) related_log_entry list"

subsection \<open>DiffEngine\<close>

text \<open>
  Modelled from the spec: \<^verbatim>\<open>diff(old_values, new_values)\<close>, whose code is not among the
  sources. "For every field present in either snapshot, compares string representations
  of old and new values; includes the field in the result iff the representations differ.
  Field ordering in the result is insertion order of iteration over the new snapshot's
  fields. Fields absent from \<^verbatim>\<open>old_values\<close> are treated as changed from a sentinel
  'absent' representation." A snapshot is an association list in insertion order; the
  representation of values and the sentinel are parameters. Fields that only the old
  snapshot has come last, compared with the sentinel.
\<close>

definition diff ::
  "('v \<Rightarrow> string) \<Rightarrow> string \<Rightarrow> (string \<times> 'v) list \<Rightarrow> (string \<times> 'v) list
     \<Rightarrow> (string \<times> string \<times> string) list" where
  "diff repr_of absent old_values new_values =
     concat (map (\<lambda>(f, v). case map_of old_values f of
                              None \<Rightarrow> [(f, absent, repr_of v)]
                            | Some u \<Rightarrow> if repr_of u \<noteq> repr_of v
                                        then [(f, repr_of u, repr_of v)] else [])
                 new_values)
     @ concat (map (\<lambda>(f, u). case map_of new_values f of
                                None \<Rightarrow> if repr_of u \<noteq> absent
                                        then [(f, repr_of u, absent)] else []
                              | Some v \<Rightarrow> [])
                   old_values)"

subsection \<open>ActorContext\<close>

text \<open>
  Modelled from the spec: the actor context, whose code (the middleware) is not among the
  sources. A single slot with the operations \<^verbatim>\<open>begin(actor)\<close>, which "fails with
  AlreadyActiveError if already set", \<^verbatim>\<open>current()\<close> and \<^verbatim>\<open>end()\<close>, which "clears the
  actor" from either state. The state INACTIVE is: actor absent, listeners detached.
\<close>

record 'a actor_context =
  holder :: "'a option"
  listening :: bool

datatype context_error = AlreadyActiveError

definition inactive :: "'a actor_context" where
  "inactive = \<lparr>holder = None, listening = False\<rparr>"

definition begin_context ::
  "'a actor_context \<Rightarrow> 'a \<Rightarrow> (context_error + unit) \<times> 'a actor_context" where
  "begin_context c a =
     (if holder c \<noteq> None then (Inl AlreadyActiveError, c)
      else (Inr (), \<lparr>holder = Some a, listening = True\<rparr>))"

definition current :: "'a actor_context \<Rightarrow> 'a option" where
  "current c = holder c"

definition end_context ::
  "'a actor_context \<Rightarrow> (context_error + unit) \<times> 'a actor_context" where
  "end_context c = (Inr (), \<lparr>holder = None, listening = False\<rparr>)"

text \<open>
  Modelled from the spec: the lifecycle hooks \<^verbatim>\<open>on_begin(actor)\<close> and \<^verbatim>\<open>on_end()\<close> that
  the host calls around a unit of work. A hook that fails leaves the context as it is.
\<close>

datatype 'a hook = On_begin 'a | On_end

fun call_hook ::
  "'a actor_context \<Rightarrow> 'a hook \<Rightarrow> (context_error + unit) \<times> 'a actor_context" where
  "call_hook c (On_begin a) = begin_context c a"
| "call_hook c On_end = end_context c"

fun call_hooks :: "'a actor_context \<Rightarrow> 'a hook list \<Rightarrow> 'a actor_context" where
  "call_hooks c [] = c"
| "call_hooks c (h # hs) = call_hooks (snd (call_hook c h)) hs"

subsection \<open>LogEntryFactory\<close>

text \<open>
  Modelled from the spec: \<^verbatim>\<open>record(entity_type, entity_id, entity_repr, action, diff, actor)\<close>,
  whose code is not among the sources: it "constructs and appends exactly one LogEntry",
  except that "UPDATE actions with an empty diff must NOT be recorded". The clock is a
  parameter.
\<close>

definition record_entry ::
  "nat \<Rightarrow> ('t, 'i, 'a) log_entry list \<Rightarrow> 't \<Rightarrow> 'i \<Rightarrow> string \<Rightarrow> action
     \<Rightarrow> (string \<times> string \<times> string) list \<Rightarrow> 'a option
     \<Rightarrow> ('t, 'i, 'a) log_entry option \<times> ('t, 'i, 'a) log_entry list" where
  "record_entry now log t i r act d who =
     (if act = UPDATE \<and> d = [] then (None, log)
      else (let e = \<lparr>entity_type = t, entity_id = i, entity_repr = r, action = act,
                      changes = d, actor = who, timestamp = now\<rparr>
            in (Some e, log @ [e])))"

text \<open>
  Modelled from the spec: the order of actor resolution, "explicit actor argument >
  ActorContext's current value > absent".
\<close>

definition resolve_actor :: "'a option \<Rightarrow> 'a actor_context \<Rightarrow> 'a option" where
  "resolve_actor explicit c = (case explicit of Some a \<Rightarrow> Some a | None \<Rightarrow> current c)"

text \<open>
  Modelled from the spec: \<^verbatim>\<open>propagate(log_entry, entity_type)\<close>, whose code is not among
  the sources: "for each relation path registered for \<^verbatim>\<open>entity_type\<close> in
  RelationRegistry", it asks the host's \<^verbatim>\<open>resolve_related(entity, path)\<close> for the ancestor
  and, "if the ancestor resolves, creates one RelatedLogEntry linking back to
  \<^verbatim>\<open>log_entry\<close> with \<^verbatim>\<open>relation = path\<close>"; an absent ancestor is skipped. The paths are
  those of the registry entry, each once.
\<close>

definition propagate ::
  "'t registry \<Rightarrow> (('t, 'i, 'v) entity \<Rightarrow> string \<Rightarrow> ('t, 'i, 'v) entity option)
     \<Rightarrow> ('t, 'i, 'a) log_entry \<Rightarrow> ('t, 'i, 'v) entity
     \<Rightarrow> ('t, 'i, 'a) related_log_entry list" where
  "propagate reg resolve_related le e =
     concat (map (\<lambda>path. case resolve_related e path of
                            None \<Rightarrow> []
                          | Some ancestor \<Rightarrow>
                              [\<lparr>log_entry = le, related_entity_type = etype ancestor,
                                related_entity_id = eid ancestor, relation = path\<rparr>])
                 (remdups (case reg (etype e) of None \<Rightarrow> [] | Some paths \<Rightarrow> paths)))"

text \<open>
  Modelled from the spec: the control flow of section 2. "On entity mutation, the host
  notifies LogEntryFactory with old/new state; LogEntryFactory invokes DiffEngine, reads
  the acting identity from ActorContext (or an explicit override), creates a primary log
  entry, then consults RelationRegistry to create zero or more related entries."
\<close>

definition notify ::
  "('v \<Rightarrow> string) \<Rightarrow> string
     \<Rightarrow> (('t, 'i, 'v) entity \<Rightarrow> string \<Rightarrow> ('t, 'i, 'v) entity option)
     \<Rightarrow> 't registry \<Rightarrow> 'a actor_context \<Rightarrow> nat \<Rightarrow> ('t, 'i, 'a) audit_log
     \<Rightarrow> action \<Rightarrow> (string \<times> 'v) list \<Rightarrow> (string \<times> 'v) list \<Rightarrow> ('t, 'i, 'v) entity
     \<Rightarrow> 'a option \<Rightarrow> ('t, 'i, 'a) audit_log" where
  "notify repr_of absent resolve_related reg c now log act old_values new_values e explicit =
     (case record_entry now (entries log) (etype e) (eid e) (erepr e) act
             (diff repr_of absent old_values new_values) (resolve_actor explicit c) of
        (None, es) \<Rightarrow> log
      | (Some le, es) \<Rightarrow>
          \<lparr>entries = es,
           related_entries = related_entries log @ propagate reg resolve_related le e\<rparr>)"

section \<open>Properties of the registry\<close>

subsection \<open>Splitting a relation string\<close>

lemma split_not_Nil: "split sep s \<noteq> []"
  by (induction sep s rule: split.induct) (auto split: list.splits)

lemma join_Cons: "ps \<noteq> [] \<Longrightarrow> join sep (p # ps) = p @ sep @ join sep ps"
  by (cases ps) auto

lemma join_split: "join sep (split sep s) = s"
proof (induction sep s rule: split.induct)
  case (1 sep)
  show ?case by simp
next
  case (2 sep c cs)
  show ?case
  proof (cases "sep \<noteq> [] \<and> take (length sep) (c # cs) = sep")
    case True
    then have "join sep (split sep (drop (length sep) (c # cs))) = drop (length sep) (c # cs)"
      using 2 by simp
    moreover have "split sep (c # cs) = [] # split sep (drop (length sep) (c # cs))"
      using True by simp
    ultimately have "join sep (split sep (c # cs)) = sep @ drop (length sep) (c # cs)"
      by (simp add: join_Cons split_not_Nil)
    also have "\<dots> = take (length sep) (c # cs) @ drop (length sep) (c # cs)"
      using True by simp
    finally show ?thesis by (simp only: append_take_drop_id)
  next
    case False
    then have ih: "join sep (split sep cs) = cs" using 2 by blast
    obtain p ps where sp: "split sep cs = p # ps"
      using split_not_Nil [of sep cs] by (cases "split sep cs") auto
    have "split sep (c # cs) = (c # p) # ps" using False sp by auto
    moreover have "join sep ((c # p) # ps) = c # join sep (p # ps)"
      by (cases ps) auto
    ultimately show ?thesis using ih sp by simp
  qed
qed

lemma split_no_occurrence: "\<not> occurs sep s \<Longrightarrow> split sep s = [s]"
  by (induction sep s rule: split.induct) (auto split: list.splits)

lemma hd_split_prefix: "\<exists>rest. s = hd (split sep s) @ rest"
proof -
  obtain p ps where sp: "split sep s = p # ps"
    using split_not_Nil [of sep s] by (cases "split sep s") auto
  have "join sep (p # ps) = s" using join_split [of sep s] sp by simp
  then show ?thesis using sp by (cases ps) auto
qed

lemma pieces_free: "sep \<noteq> [] \<Longrightarrow> p \<in> set (split sep s) \<Longrightarrow> \<not> occurs sep p"
proof (induction sep s arbitrary: p rule: split.induct)
  case (1 sep)
  then show ?case by simp
next
  case (2 sep c cs)
  show ?case
  proof (cases "take (length sep) (c # cs) = sep")
    case True
    then have "split sep (c # cs) = [] # split sep (drop (length sep) (c # cs))"
      using 2(3) by simp
    then have "p = [] \<or> p \<in> set (split sep (drop (length sep) (c # cs)))"
      using 2(4) by auto
    then show ?thesis using 2(1) 2(3) True by auto
  next
    case False
    obtain q qs where sp: "split sep cs = q # qs"
      using split_not_Nil [of sep cs] by (cases "split sep cs") auto
    have eq: "split sep (c # cs) = (c # q) # qs" using False sp by auto
    have free: "\<And>x. x \<in> set (split sep cs) \<Longrightarrow> \<not> occurs sep x"
      using 2(2) 2(3) False by blast
    from hd_split_prefix [of cs sep] sp obtain rest where cs: "cs = q @ rest" by auto
    have "\<not> occurs sep (c # q)"
    proof
      assume "occurs sep (c # q)"
      then have "take (length sep) (c # q) = sep" using free sp by auto
      then have "length (take (length sep) (c # q)) = length sep" by simp
      then have "length sep \<le> length (c # q)"
        by (simp only: length_take)
      then have "take (length sep) ((c # q) @ rest) = take (length sep) (c # q)"
        by (simp only: take_append diff_is_0_eq' take_0 append_Nil2)
      then have "take (length sep) (c # cs) = take (length sep) (c # q)"
        using cs by simp
      then show False using False \<open>take (length sep) (c # q) = sep\<close> by simp
    qed
    then show ?thesis using eq 2(4) free sp by auto
  qed
qed

subsection \<open>Validation, step by step\<close>

lemma validate_parts_ok:
  "(validate_parts M model parent parts = Inr ()) = relational_hops M parent parts"
  by (induction parts arbitrary: parent) (auto split: option.splits field.splits)

lemma validate_parts_hops:
  "relational_hops M parent parts \<Longrightarrow> validate_parts M model parent parts = Inr ()"
  by (simp add: validate_parts_ok)


lemma validate_relations_ok:
  "(validate_relations M model relations = Inr ()) =
     (\<forall>r \<in> set relations. relational_hops M model (split ''__'' r))"
proof (induction relations)
  case Nil
  show ?case by simp
next
  case (Cons r rs)
  show ?case
  proof (cases "validate_parts M model model (split ''__'' r)")
    case (Inl e)
    then have "\<not> relational_hops M model (split ''__'' r)"
      using validate_parts_ok [of M model model "split ''__'' r"] by simp
    then show ?thesis using Inl by simp
  next
    case (Inr u)
    then have "relational_hops M model (split ''__'' r)"
      using validate_parts_ok [of M model model "split ''__'' r"] by simp
    then show ?thesis using Inr Cons by simp
  qed
qed

lemma validate_parts_first_offence:
  "follow M parent pre = Some t \<Longrightarrow>
   validate_parts M model parent (pre @ part # post) =
     (case get_field M t part of
        None \<Rightarrow> Inl FieldDoesNotExist
      | Some (RelatedField target) \<Rightarrow> validate_parts M model target post
      | Some OtherField \<Rightarrow>
          Inl (ValueError (no_relation_message (str_of M model) (str_of M t) part)))"
  by (induction pre arbitrary: parent) (auto split: option.splits field.splits)

lemma validate_relations_skip:
  "\<forall>r \<in> set ok. relational_hops M model (split ''__'' r) \<Longrightarrow>
   validate_relations M model (ok @ rest) = validate_relations M model rest"
  by (induction ok) (auto simp: validate_parts_hops split: sum.splits)


lemma register_fst: "fst (register M self model relations) = validate_relations M model relations"
  by (cases "validate_relations M model relations") (auto simp: register_def)

lemma register_snd:
  "snd (register M self model relations) =
     (if validate_relations M model relations = Inr () then self(model \<mapsto> relations) else self)"
  by (cases "validate_relations M model relations") (auto simp: register_def)

lemma unregister_eq: "unregister self model = (Inr (), self(model := None))"
  by (auto simp: unregister_def pop_def split: option.splits)



text \<open>
  As first stated, C1 has every component that resolves to a non-relation field make
  \<^verbatim>\<open>register\<close> fail with the error that names it. With the relations \<^verbatim>\<open>['nosuch', 'text']\<close>
  on \<^verbatim>\<open>SimpleChildModel\<close>, the component \<^verbatim>\<open>text\<close> resolves to a field that is no relation,
  and the call raises \<^verbatim>\<open>FieldDoesNotExist\<close> for \<^verbatim>\<open>nosuch\<close>, which comes first.
\<close>

theorem register_other_field_counterexample:
  "''text'' \<in> set [''nosuch'', ''text'']
   \<and> meets_other_field testapp_meta SimpleChildModel (split ''__'' ''text'')
   \<and> \<not> is_ValueError (fst (register testapp_meta Map.empty SimpleChildModel [''nosuch'', ''text'']))
   \<and> fst (register testapp_meta Map.empty SimpleChildModel [''nosuch'', ''text''])
       = Inl FieldDoesNotExist"
  by (simp add: register_def testapp_meta_def)

subsection \<open>Validation at registration\<close>

text \<open>
  C1, as amended. \<^verbatim>\<open>register\<close> succeeds if and only if every component of every path,
  resolved one hop at a time from the model (each hop moving on to the related model), names
  a relational field. When it fails, the first component in the order of iteration that
  does not name a relational field decides the error: after paths that validate, a path
  whose components up to \<open>part\<close> are relations leading to \<open>parent\<close> makes \<^verbatim>\<open>register\<close>
  raise \<^verbatim>\<open>ValueError\<close>, with a message naming the model, \<open>parent\<close> and \<open>part\<close>, when \<open>part\<close>
  is a field of \<open>parent\<close> that is no relation, and lets \<^verbatim>\<open>FieldDoesNotExist\<close> through
  when \<open>parent\<close> has no field \<open>part\<close>.
\<close>

theorem register_validates:
  "((fst (register M self model relations) = Inr ())
      = (\<forall>r \<in> set relations. relational_hops M model (split ''__'' r)))
   \<and> ((\<forall>r \<in> set ok. relational_hops M model (split ''__'' r))
        \<and> split ''__'' r = pre @ part # post \<and> follow M model pre = Some parent \<longrightarrow>
      (get_field M parent part = Some OtherField \<longrightarrow>
         fst (register M self model (ok @ r # rest))
           = Inl (ValueError (''Error on '' @ [CHR 0x27] @ str_of M model @ [CHR 0x27] @ '': ''
                   @ [CHR 0x27] @ str_of M parent @ [CHR 0x27] @ '' has no relation ''
                   @ [CHR 0x27] @ part @ [CHR 0x27])))
      \<and> (get_field M parent part = None \<longrightarrow>
         fst (register M self model (ok @ r # rest)) = Inl FieldDoesNotExist))"
proof -
  have success: "(fst (register M self model relations) = Inr ())
      = (\<forall>r \<in> set relations. relational_hops M model (split ''__'' r))"
    by (simp only: register_fst validate_relations_ok)
  have failure: "fst (register M self model (ok @ r # rest))
      = (case get_field M parent part of
           None \<Rightarrow> Inl FieldDoesNotExist
         | Some (RelatedField target) \<Rightarrow>
             (case validate_parts M model target post of
                Inl e \<Rightarrow> Inl e | Inr u \<Rightarrow> validate_relations M model rest)
         | Some OtherField \<Rightarrow>
             Inl (ValueError (no_relation_message (str_of M model) (str_of M parent) part)))"
    if "\<forall>r \<in> set ok. relational_hops M model (split ''__'' r)"
      and "split ''__'' r = pre @ part # post" and "follow M model pre = Some parent"
    using that
    by (simp add: register_fst validate_relations_skip validate_parts_first_offence
          split: option.splits field.splits)
  show ?thesis
    using success failure by (simp add: no_relation_message_def)
qed

theorem register_validates_witness:
  "relational_hops testapp_meta SimpleChildModel (split ''__'' ''parent'')
   \<and> split ''__'' ''parent__text'' = [''parent''] @ ''text'' # []
   \<and> follow testapp_meta SimpleChildModel [''parent''] = Some SimpleModel
   \<and> get_field testapp_meta SimpleModel ''text'' = Some OtherField
   \<and> fst (register testapp_meta Map.empty SimpleChildModel
            ([''parent''] @ ''parent__text'' # [''nosuch'']))
       = Inl (ValueError (''Error on '' @ [CHR 0x27] @ str_of testapp_meta SimpleChildModel
               @ [CHR 0x27] @ '': '' @ [CHR 0x27] @ str_of testapp_meta SimpleModel @ [CHR 0x27]
               @ '' has no relation '' @ [CHR 0x27] @ ''text'' @ [CHR 0x27]))
   \<and> fst (register testapp_meta Map.empty SimpleChildModel [''parent'']) = Inr ()"
  using register_validates [of testapp_meta Map.empty SimpleChildModel "[''parent'']"
      "[''parent'']" "''parent__text''" "[''parent'']" "''text''" "[]" SimpleModel "[''nosuch'']"]
  by (simp add: testapp_meta_def)




subsection \<open>Reading after a history of calls\<close>




subsection \<open>The separator of relation paths\<close>

text \<open>
  As first stated, C4 has the path split on the dot. On a model whose \<^verbatim>\<open>parent\<close> points
  to itself, the dot-separated components of \<^verbatim>\<open>parent.parent\<close> are relations hop by hop,
  yet the code takes the string for one component and fails on it; \<^verbatim>\<open>parent__parent\<close>
  is the path of two hops.
\<close>

theorem dot_separated_counterexample:
  "relational_hops tree_meta Category (split ''.'' ''parent.parent'')
   \<and> split ''__'' ''parent.parent'' = [''parent.parent'']
   \<and> fst (register tree_meta Map.empty Category [''parent.parent'']) = Inl FieldDoesNotExist
   \<and> fst (register tree_meta Map.empty Category [''parent__parent'']) = Inr ()"
  by (simp add: register_def tree_meta_def)

text \<open>
  C4, as amended. During validation a relation string is decomposed by splitting on the
  double underscore \<^verbatim>\<open>__\<close>: the components joined by \<^verbatim>\<open>__\<close> give the string back, no
  component contains \<^verbatim>\<open>__\<close>, a string without \<^verbatim>\<open>__\<close> (whatever dots it has) is one
  component, and each component is resolved as one hop.
\<close>

theorem relation_split_on_double_underscore:
  "join ''__'' (split ''__'' path) = path
   \<and> (\<forall>part \<in> set (split ''__'' path). \<not> occurs ''__'' part)
   \<and> (\<not> occurs ''__'' path \<longrightarrow> split ''__'' path = [path])
   \<and> ((fst (register M self model [path]) = Inr ())
        = relational_hops M model (split ''__'' path))"
proof -
  have "\<not> occurs ''__'' part" if "part \<in> set (split ''__'' path)" for part
    using pieces_free [of "''__''" part path] that by simp
  moreover have "(fst (register M self model [path]) = Inr ())
        = relational_hops M model (split ''__'' path)"
    by (simp only: register_fst validate_relations_ok) simp
  ultimately show ?thesis
    using join_split [of "''__''" path] split_no_occurrence [of "''__''" path]
    by blast
qed

theorem relation_split_on_double_underscore_witness:
  "join ''__'' [''parent'', ''parent''] = ''parent__parent''
   \<and> split ''__'' ''parent__parent'' = [''parent'', ''parent'']
   \<and> \<not> occurs ''__'' ''parent''
   \<and> \<not> occurs ''__'' ''parent.parent''
   \<and> split ''__'' ''parent.parent'' = [''parent.parent'']
   \<and> fst (register tree_meta Map.empty Category [''parent__parent'']) = Inr ()
   \<and> relational_hops tree_meta Category [''parent'', ''parent'']"
  using relation_split_on_double_underscore [of "''parent__parent''" tree_meta Map.empty Category]
    relation_split_on_double_underscore [of "''parent.parent''" tree_meta Map.empty Category]
  by (simp add: tree_meta_def)

subsection \<open>Replacing and removing registrations\<close>

text \<open>
  C8. For two valid relation sets \<open>R1\<close> and \<open>R2\<close>, \<^verbatim>\<open>register(model, R1)\<close> followed by
  \<^verbatim>\<open>register(model, R2)\<close> succeeds both times and leaves the registration of the model
  equal to \<open>R2\<close>: the registry is the one before both calls with \<open>R2\<close> stored for the
  model.
\<close>

theorem register_last_write_wins:
  "\<forall>r \<in> set R1. relational_hops M model (split ''__'' r) \<Longrightarrow>
   \<forall>r \<in> set R2. relational_hops M model (split ''__'' r) \<Longrightarrow>
     register M self model R1 = (Inr (), self(model \<mapsto> R1))
     \<and> register M (snd (register M self model R1)) model R2 = (Inr (), self(model \<mapsto> R2))
     \<and> snd (register M (snd (register M self model R1)) model R2) model = Some R2"
proof -
  assume "\<forall>r \<in> set R1. relational_hops M model (split ''__'' r)"
    and "\<forall>r \<in> set R2. relational_hops M model (split ''__'' r)"
  then have "validate_relations M model R1 = Inr ()" and "validate_relations M model R2 = Inr ()"
    by (simp_all only: validate_relations_ok)
  then show ?thesis by (simp add: register_def)
qed

theorem register_last_write_wins_witness:
  "relational_hops tree_meta Category (split ''__'' ''parent'')
   \<and> relational_hops tree_meta Category (split ''__'' ''parent__parent'')
   \<and> register tree_meta Map.empty Category [''parent''] = (Inr (), [Category \<mapsto> [''parent'']])
   \<and> snd (register tree_meta (snd (register tree_meta Map.empty Category [''parent'']))
             Category [''parent__parent'', ''parent'']) Category
       = Some [''parent__parent'', ''parent'']"
  using register_last_write_wins [of "[''parent'']" tree_meta Category
      "[''parent__parent'', ''parent'']" Map.empty]
  by (simp add: tree_meta_def register_def)

text \<open>
  C9. \<^verbatim>\<open>unregister(model)\<close> never raises and removes the registration of the model; with
  no registration it leaves the registry as it is, and a second \<^verbatim>\<open>unregister\<close> in a row
  returns and leaves what the first did.
\<close>

theorem unregister_never_raises:
  "unregister self model = (Inr (), self(model := None))
   \<and> (self model = None \<longrightarrow> unregister self model = (Inr (), self))
   \<and> unregister (snd (unregister self model)) model = unregister self model"
  by (auto simp: unregister_eq)

theorem unregister_never_raises_witness:
  "unregister [SimpleChildModel \<mapsto> [''parent'']] SimpleChildModel = (Inr (), Map.empty)
   \<and> (Map.empty :: testapp registry) SimpleModel = None
   \<and> unregister (Map.empty :: testapp registry) SimpleModel = (Inr (), Map.empty)
   \<and> unregister (snd (unregister [SimpleChildModel \<mapsto> [''parent'']] SimpleChildModel))
        SimpleChildModel = (Inr (), Map.empty)"
  using unregister_never_raises [of "[SimpleChildModel \<mapsto> [''parent'']]" SimpleChildModel]
    unregister_never_raises [of "Map.empty :: testapp registry" SimpleModel]
  by (simp add: unregister_def pop_def)

text \<open>
  C10. For distinct models \<open>m\<close> and \<open>m'\<close>, \<^verbatim>\<open>register(m, relations)\<close>, whether it
  validates or raises, and \<^verbatim>\<open>unregister(m)\<close> leave the registration stored for \<open>m'\<close>
  unchanged.
\<close>

theorem other_models_untouched:
  "m \<noteq> m' \<Longrightarrow>
     snd (register M self m relations) m' = self m' \<and> snd (unregister self m) m' = self m'"
  by (simp add: register_snd unregister_eq)

theorem other_models_untouched_witness:
  "SimpleChildModel \<noteq> SimpleModel
   \<and> snd (register testapp_meta [SimpleModel \<mapsto> []] SimpleChildModel [''parent'']) SimpleModel
       = Some []
   \<and> snd (register testapp_meta [SimpleModel \<mapsto> []] SimpleChildModel [''text'']) SimpleModel
       = Some []
   \<and> snd (unregister [SimpleModel \<mapsto> []] SimpleChildModel) SimpleModel = Some []"
  using other_models_untouched [of SimpleChildModel SimpleModel testapp_meta "[SimpleModel \<mapsto> []]"
      "[''parent'']"]
    other_models_untouched [of SimpleChildModel SimpleModel testapp_meta "[SimpleModel \<mapsto> []]"
      "[''text'']"]
  by simp

section \<open>Properties of the change log\<close>

subsection \<open>The diff of two snapshots\<close>

lemma diff_new_changed:
  "map_of new_values f = Some v \<Longrightarrow> map_of old_values f = Some u \<Longrightarrow>
   repr_of u \<noteq> repr_of v \<Longrightarrow>
   map_of (concat (map (\<lambda>(f, v). case map_of old_values f of
                              None \<Rightarrow> [(f, absent, repr_of v)]
                            | Some u \<Rightarrow> if repr_of u \<noteq> repr_of v
                                        then [(f, repr_of u, repr_of v)] else [])
                 new_values)) f = Some (repr_of u, repr_of v)"
  by (induction new_values) (auto split: option.splits if_splits)

lemma diff_changed:
  "map_of new_values f = Some v \<Longrightarrow> map_of old_values f = Some u \<Longrightarrow>
   repr_of u \<noteq> repr_of v \<Longrightarrow>
   map_of (diff repr_of absent old_values new_values) f = Some (repr_of u, repr_of v)"
  unfolding diff_def map_of_append
  by (simp add: diff_new_changed map_add_def)

lemma diff_changed_not_Nil:
  "map_of new_values f = Some v \<Longrightarrow> map_of old_values f = Some u \<Longrightarrow>
   repr_of u \<noteq> repr_of v \<Longrightarrow> diff repr_of absent old_values new_values \<noteq> []"
  using diff_changed [of new_values f v old_values u repr_of absent] by auto

lemma diff_unchanged:
  assumes "distinct (map fst new_values)"
    and "\<forall>f. map_option repr_of (map_of old_values f) = map_option repr_of (map_of new_values f)"
  shows "diff repr_of absent old_values new_values = []"
proof -
  have new: "(case map_of old_values f of
                None \<Rightarrow> [(f, absent, repr_of v)]
              | Some u \<Rightarrow> if repr_of u \<noteq> repr_of v then [(f, repr_of u, repr_of v)] else []) = []"
    if "(f, v) \<in> set new_values" for f v
  proof -
    have "map_of new_values f = Some v" using assms(1) that by simp
    then have "map_option repr_of (map_of old_values f) = Some (repr_of v)"
      using assms(2) by simp
    then show ?thesis by (auto split: option.splits)
  qed
  have old: "(case map_of new_values f of
                None \<Rightarrow> if repr_of u \<noteq> absent then [(f, repr_of u, absent)] else []
              | Some v \<Rightarrow> []) = []"
    if "(f, u) \<in> set old_values" for f u
  proof -
    have "map_of old_values f \<noteq> None" using that by (simp add: map_of_eq_None_iff) force
    then have "map_option repr_of (map_of new_values f) \<noteq> None"
      using assms(2) by (metis option.map_disc_iff)
    then show ?thesis by (auto split: option.splits)
  qed
  show ?thesis
    unfolding diff_def using new old by (auto simp: concat_eq_Nil_conv)
qed

lemma remdups_singleton: "set xs = {a} \<Longrightarrow> remdups xs = [a]"
proof -
  assume "set xs = {a}"
  then have s: "set (remdups xs) = {a}" by simp
  have d: "distinct (remdups xs)" by simp
  have "length (remdups xs) = card (set (remdups xs))"
    using d by (simp only: distinct_card)
  then have "length (remdups xs) = 1" using s by simp
  then obtain b where "remdups xs = [b]"
    by (cases "remdups xs") auto
  then show ?thesis using s by auto
qed

subsection \<open>Updates, creations and the actor context\<close>

text \<open>
  C5. An update that takes a field from a value to one with a different string
  representation appends exactly one log entry, with action UPDATE, whose changes map the
  field to the pair of the old and the new representation; an update in which no field's
  representation changed leaves the log as it is, with no entry added.
\<close>

theorem update_logged_once:
  "(map_of old_values f = Some u \<and> map_of new_values f = Some v \<and> repr_of u \<noteq> repr_of v \<longrightarrow>
      (\<exists>le. entries (notify repr_of absent resolve_related reg c now log UPDATE
                        old_values new_values e explicit) = entries log @ [le]
            \<and> action le = UPDATE
            \<and> map_of (changes le) f = Some (repr_of u, repr_of v)))
   \<and> (distinct (map fst new_values)
        \<and> (\<forall>f. map_option repr_of (map_of old_values f)
                  = map_option repr_of (map_of new_values f)) \<longrightarrow>
      notify repr_of absent resolve_related reg c now log UPDATE old_values new_values e explicit
        = log)"
proof (intro conjI impI)
  assume a: "map_of old_values f = Some u \<and> map_of new_values f = Some v \<and> repr_of u \<noteq> repr_of v"
  then have "diff repr_of absent old_values new_values \<noteq> []"
    using diff_changed_not_Nil [of new_values f v old_values u repr_of absent] by simp
  moreover have "map_of (diff repr_of absent old_values new_values) f = Some (repr_of u, repr_of v)"
    using a diff_changed [of new_values f v old_values u repr_of absent] by simp
  ultimately show "\<exists>le. entries (notify repr_of absent resolve_related reg c now log UPDATE
                        old_values new_values e explicit) = entries log @ [le]
            \<and> action le = UPDATE
            \<and> map_of (changes le) f = Some (repr_of u, repr_of v)"
    by (simp add: notify_def record_entry_def Let_def)
next
  assume "distinct (map fst new_values)
        \<and> (\<forall>f. map_option repr_of (map_of old_values f)
                  = map_option repr_of (map_of new_values f))"
  then have "diff repr_of absent old_values new_values = []"
    using diff_unchanged [of new_values repr_of old_values absent] by simp
  then show "notify repr_of absent resolve_related reg c now log UPDATE old_values new_values
      e explicit = log"
    by (simp add: notify_def record_entry_def Let_def)
qed

theorem update_logged_once_witness:
  "map_of [(''text'', ''I am not difficult.''), (''boolean'', ''False'')] ''boolean'' = Some ''False''
   \<and> map_of [(''text'', ''I am not difficult.''), (''boolean'', ''True'')] ''boolean'' = Some ''True''
   \<and> id ''False'' \<noteq> id ''True''
   \<and> (\<exists>le. entries (notify id ''None'' (\<lambda>e path. None) Map.empty (inactive :: string actor_context)
               0 \<lparr>entries = [], related_entries = []\<rparr> UPDATE
               [(''text'', ''I am not difficult.''), (''boolean'', ''False'')]
               [(''text'', ''I am not difficult.''), (''boolean'', ''True'')]
               \<lparr>etype = SimpleModel, eid = 1 :: nat, erepr = ''I am not difficult.'',
                 evalues = [(''text'', ''I am not difficult.''), (''boolean'', ''True'')]\<rparr>
               None) = [] @ [le]
         \<and> action le = UPDATE \<and> map_of (changes le) ''boolean'' = Some (''False'', ''True''))
   \<and> distinct (map fst [(''text'', ''I am not difficult.''), (''boolean'', ''True'')])
   \<and> notify id ''None'' (\<lambda>e path. None) Map.empty (inactive :: string actor_context)
        0 \<lparr>entries = [], related_entries = []\<rparr> UPDATE
        [(''text'', ''I am not difficult.''), (''boolean'', ''True'')]
        [(''text'', ''I am not difficult.''), (''boolean'', ''True'')]
        \<lparr>etype = SimpleModel, eid = 1 :: nat, erepr = ''I am not difficult.'',
          evalues = [(''text'', ''I am not difficult.''), (''boolean'', ''True'')]\<rparr>
        None = \<lparr>entries = [], related_entries = []\<rparr>"
  using update_logged_once [of "[(''text'', ''I am not difficult.''), (''boolean'', ''False'')]"
      "''boolean''" "''False''" "[(''text'', ''I am not difficult.''), (''boolean'', ''True'')]"
      "''True''" id "''None''" "\<lambda>e path. None" Map.empty "inactive :: string actor_context" 0
      "\<lparr>entries = [], related_entries = []\<rparr>"
      "\<lparr>etype = SimpleModel, eid = 1 :: nat, erepr = ''I am not difficult.'',
        evalues = [(''text'', ''I am not difficult.''), (''boolean'', ''True'')]\<rparr>" None]
    update_logged_once [of "[(''text'', ''I am not difficult.''), (''boolean'', ''True'')]"
      "''boolean''" "''True''" "[(''text'', ''I am not difficult.''), (''boolean'', ''True'')]"
      "''True''" id "''None''" "\<lambda>e path. None" Map.empty "inactive :: string actor_context" 0
      "\<lparr>entries = [], related_entries = []\<rparr>"
      "\<lparr>etype = SimpleModel, eid = 1 :: nat, erepr = ''I am not difficult.'',
        evalues = [(''text'', ''I am not difficult.''), (''boolean'', ''True'')]\<rparr>" None]
  by simp

subsection \<open>Related entries\<close>

lemma filter_concat_other:
  "a \<notin> set xs \<Longrightarrow> \<forall>x. \<forall>y \<in> set (g x). key y = x \<Longrightarrow>
     filter (\<lambda>y. key y = a) (concat (map g xs)) = []"
  by (induction xs) (auto simp: filter_empty_conv)

lemma filter_concat_keyed:
  "distinct xs \<Longrightarrow> a \<in> set xs \<Longrightarrow> \<forall>x. \<forall>y \<in> set (g x). key y = x \<Longrightarrow>
     filter (\<lambda>y. key y = a) (concat (map g xs)) = g a"
proof (induction xs)
  case Nil
  then show ?case by simp
next
  case (Cons x xs)
  show ?case
  proof (cases "x = a")
    case True
    then have "a \<notin> set xs" using Cons.prems(1) by simp
    then have "filter (\<lambda>y. key y = a) (concat (map g xs)) = []"
      using Cons.prems(3) by (rule filter_concat_other)
    moreover have "filter (\<lambda>y. key y = a) (g a) = g a"
      using Cons.prems(3) by (simp add: filter_id_conv)
    ultimately show ?thesis using True by simp
  next
    case False
    then have "filter (\<lambda>y. key y = a) (g x) = []"
      using Cons.prems(3) by (auto simp: filter_empty_conv)
    moreover have "filter (\<lambda>y. key y = a) (concat (map g xs)) = g a"
      using Cons False by simp
    ultimately show ?thesis by simp
  qed
qed

lemma propagate_on_path:
  assumes "reg (etype child) = Some paths" and "a \<in> set paths"
    and "resolve_related child a = Some p"
  shows "filter (\<lambda>r. relation r = a) (propagate reg resolve_related le child)
       = [\<lparr>log_entry = le, related_entity_type = etype p, related_entity_id = eid p,
           relation = a\<rparr>]"
proof -
  let ?g = "\<lambda>path. case resolve_related child path of
                      None \<Rightarrow> []
                    | Some ancestor \<Rightarrow>
                        [\<lparr>log_entry = le, related_entity_type = etype ancestor,
                          related_entity_id = eid ancestor, relation = path\<rparr>]"
  have keyed: "\<forall>x. \<forall>y \<in> set (?g x). relation y = x"
    by (auto split: option.splits)
  have "filter (\<lambda>r. relation r = a) (concat (map ?g (remdups paths))) = ?g a"
    using assms(2) keyed by (intro filter_concat_keyed) simp_all
  then show ?thesis
    using assms(1) assms(3) by (simp add: propagate_def)
qed

lemma propagate_single:
  assumes "reg (etype child) = Some paths" and "set paths = {a}"
    and "resolve_related child a = Some p"
  shows "propagate reg resolve_related le child
       = [\<lparr>log_entry = le, related_entity_type = etype p, related_entity_id = eid p,
           relation = a\<rparr>]"
proof -
  have "remdups paths = [a]" using assms(2) by (simp add: remdups_singleton)
  then show ?thesis
    using assms(1) assms(3) by (simp add: propagate_def)
qed

text \<open>
  C6. For an entity type whose registry entry holds the relation path \<^verbatim>\<open>parent\<close>, creating a child
  whose parent resolves appends the child's CREATE entry and, for that path, exactly one
  related entry: it is on the parent, its relation is \<^verbatim>\<open>parent\<close> and its log entry is the
  CREATE entry. When \<^verbatim>\<open>parent\<close> is the only registered path, it is the only related entry
  the creation adds.
\<close>

theorem create_propagates_to_parent:
  "reg (etype child) = Some paths \<Longrightarrow> ''parent'' \<in> set paths \<Longrightarrow>
   resolve_related child ''parent'' = Some p \<Longrightarrow>
     \<exists>le new.
       notify repr_of absent resolve_related reg c now log CREATE [] (evalues child) child explicit
         = \<lparr>entries = entries log @ [le], related_entries = related_entries log @ new\<rparr>
       \<and> action le = CREATE \<and> entity_type le = etype child \<and> entity_id le = eid child
       \<and> filter (\<lambda>r. relation r = ''parent'') new
           = [\<lparr>log_entry = le, related_entity_type = etype p, related_entity_id = eid p,
               relation = ''parent''\<rparr>]
       \<and> (set paths = {''parent''} \<longrightarrow>
            new = [\<lparr>log_entry = le, related_entity_type = etype p, related_entity_id = eid p,
                    relation = ''parent''\<rparr>])"
proof -
  assume g: "reg (etype child) = Some paths" and r: "''parent'' \<in> set paths"
    and p: "resolve_related child ''parent'' = Some p"
  define le where
    "le = \<lparr>entity_type = etype child, entity_id = eid child, entity_repr = erepr child,
           action = CREATE, changes = diff repr_of absent [] (evalues child),
           actor = resolve_actor explicit c, timestamp = now\<rparr>"
  have "notify repr_of absent resolve_related reg c now log CREATE [] (evalues child) child explicit
      = \<lparr>entries = entries log @ [le],
         related_entries = related_entries log @ propagate reg resolve_related le child\<rparr>"
    by (simp add: notify_def record_entry_def Let_def le_def)
  moreover have "action le = CREATE \<and> entity_type le = etype child \<and> entity_id le = eid child"
    by (simp add: le_def)
  moreover have "filter (\<lambda>r. relation r = ''parent'') (propagate reg resolve_related le child)
      = [\<lparr>log_entry = le, related_entity_type = etype p, related_entity_id = eid p,
          relation = ''parent''\<rparr>]"
    using g r p by (rule propagate_on_path)
  moreover have "propagate reg resolve_related le child
      = [\<lparr>log_entry = le, related_entity_type = etype p, related_entity_id = eid p,
          relation = ''parent''\<rparr>]" if "set paths = {''parent''}"
    using g that p by (rule propagate_single)
  ultimately show ?thesis by blast
qed

theorem create_propagates_to_parent_witness:
  "snd (register testapp_meta Map.empty SimpleChildModel [''parent'']) SimpleChildModel
     = Some [''parent'']
   \<and> ''parent'' \<in> set [''parent'']
   \<and> set [''parent''] = {''parent''}
   \<and> (\<exists>le. notify id ''None''
          (\<lambda>e path. if path = ''parent''
             then Some \<lparr>etype = SimpleModel, eid = 1 :: nat, erepr = ''I am your father.'',
                        evalues = [(''text'', ''I am your father.'')]\<rparr>
             else None)
          (snd (register testapp_meta Map.empty SimpleChildModel [''parent'']))
          (inactive :: string actor_context) 0 \<lparr>entries = [], related_entries = []\<rparr> CREATE []
          [(''text'', ''I guess so.'')]
          \<lparr>etype = SimpleChildModel, eid = 1 :: nat, erepr = ''I guess so.'',
            evalues = [(''text'', ''I guess so.'')]\<rparr> None
        = \<lparr>entries = [] @ [le],
           related_entries = [] @ [\<lparr>log_entry = le, related_entity_type = SimpleModel,
                                    related_entity_id = 1, relation = ''parent''\<rparr>]\<rparr>
        \<and> action le = CREATE \<and> entity_type le = SimpleChildModel \<and> entity_id le = 1)"
  using create_propagates_to_parent [of
      "snd (register testapp_meta Map.empty SimpleChildModel [''parent''])"
      "\<lparr>etype = SimpleChildModel, eid = 1 :: nat, erepr = ''I guess so.'',
        evalues = [(''text'', ''I guess so.'')]\<rparr>"
      "[''parent'']"
      "\<lambda>e path. if path = ''parent''
             then Some \<lparr>etype = SimpleModel, eid = 1 :: nat, erepr = ''I am your father.'',
                        evalues = [(''text'', ''I am your father.'')]\<rparr>
             else None"
      "\<lparr>etype = SimpleModel, eid = 1 :: nat, erepr = ''I am your father.'',
        evalues = [(''text'', ''I am your father.'')]\<rparr>"
      id "''None''" "inactive :: string actor_context" 0 "\<lparr>entries = [], related_entries = []\<rparr>"
      None]
  by (simp add: register_def testapp_meta_def)

text \<open>
  C7. \<^verbatim>\<open>end()\<close> never raises, whatever the context is when it is called: after a
  \<^verbatim>\<open>begin\<close>, twice in a row, with no \<^verbatim>\<open>begin\<close> before it, or after any sequence of
  hooks, as on the failure path of a unit of work. It always leaves the context INACTIVE:
  actor absent, listeners detached.
\<close>

theorem end_context_never_raises:
  "end_context c = (Inr (), inactive)
   \<and> end_context (snd (end_context c)) = (Inr (), inactive)
   \<and> end_context inactive = (Inr (), inactive)
   \<and> call_hook (call_hooks inactive hooks) On_end = (Inr (), inactive)
   \<and> current (snd (end_context c)) = None
   \<and> \<not> listening (snd (end_context c))"
  by (simp add: end_context_def inactive_def current_def)

end
